theory Spec2Isabelle
  imports Complex_Main
begin

section \<open>Strings\<close>

text \<open>
  The string operations of the host language that the component framework uses.
  Characters are bytes here: the operations are modelled on ASCII text, which is what
  tag names, marker names and binding values are made of.
\<close>

definition toLowerCase_char :: "char \<Rightarrow> char" where
  "toLowerCase_char c =
     (let n = (of_char c :: nat) in if 65 \<le> n \<and> n \<le> 90 then char_of (n + 32) else c)"

definition toLowerCase :: "string \<Rightarrow> string" where
  "toLowerCase s = map toLowerCase_char s"

definition endsWith :: "string \<Rightarrow> string \<Rightarrow> bool" where
  "endsWith s suf = (length suf \<le> length s \<and> drop (length s - length suf) s = suf)"

definition startsWith :: "string \<Rightarrow> string \<Rightarrow> bool" where
  "startsWith s pre = (take (length pre) s = pre)"

section \<open>The document\<close>

text \<open>
  A snapshot of the DOM is a forest: the document tree first, then every detached
  subtree. A node is denoted by its position in the snapshot: the index of its tree and
  the path from that tree's root, where a step either enters a child or crosses from a
  host element into its (open) shadow root. A template element keeps its markup in
  \<open>content\<close>, which is not part of the tree of its children.
\<close>

datatype node_class =
  Component | DeclarativeShadowElement | HTMLTemplateElement | HTMLElement | Element
  | ShadowRoot | Document | TextNode

fun superclasses :: "node_class \<Rightarrow> node_class list" where
  "superclasses Component = [Component, DeclarativeShadowElement, HTMLElement, Element]"
| "superclasses DeclarativeShadowElement = [DeclarativeShadowElement, HTMLElement, Element]"
| "superclasses HTMLTemplateElement = [HTMLTemplateElement, HTMLElement, Element]"
| "superclasses HTMLElement = [HTMLElement, Element]"
| "superclasses Element = [Element]"
| "superclasses ShadowRoot = [ShadowRoot]"
| "superclasses Document = [Document]"
| "superclasses TextNode = [TextNode]"

datatype tree =
  Node (cls: node_class) (tagName: string) (attributes: "(string \<times> string) list")
       (childNodes: "tree list") (shadowRoot: "tree option") (content: "tree list")

datatype step = Child nat | Shadow

type_synonym node = "nat \<times> step list"

type_synonym dom = "tree list"

fun subtree :: "tree \<Rightarrow> step list \<Rightarrow> tree option" where
  "subtree t [] = Some t"
| "subtree t (Child i # p) =
     (if i < length (childNodes t) then subtree (childNodes t ! i) p else None)"
| "subtree t (Shadow # p) = (case shadowRoot t of None \<Rightarrow> None | Some s \<Rightarrow> subtree s p)"

definition node_at :: "dom \<Rightarrow> node \<Rightarrow> tree option" where
  "node_at d n = (if fst n < length d then subtree (d ! fst n) (snd n) else None)"

definition instanceof :: "dom \<Rightarrow> node \<Rightarrow> node_class \<Rightarrow> bool" where
  "instanceof d n k =
     (case node_at d n of None \<Rightarrow> False | Some t \<Rightarrow> k \<in> set (superclasses (cls t)))"

definition getAttribute :: "dom \<Rightarrow> node \<Rightarrow> string \<Rightarrow> string option" where
  "getAttribute d n a =
     (case node_at d n of None \<Rightarrow> None | Some t \<Rightarrow> map_of (attributes t) a)"

definition hasAttribute :: "dom \<Rightarrow> node \<Rightarrow> string \<Rightarrow> bool" where
  "hasAttribute d n a = (getAttribute d n a \<noteq> None)"

definition tagName_of :: "dom \<Rightarrow> node \<Rightarrow> string" where
  "tagName_of d n = (case node_at d n of None \<Rightarrow> [] | Some t \<Rightarrow> tagName t)"

fun parentNode :: "node \<Rightarrow> node option" where
  "parentNode (r, p) =
     (case rev p of Child i # q \<Rightarrow> Some (r, rev q) | _ \<Rightarrow> None)"

fun host :: "node \<Rightarrow> node option" where
  "host (r, p) = (case rev p of Shadow # q \<Rightarrow> Some (r, rev q) | _ \<Rightarrow> None)"

lemma parentNode_shorter: "parentNode n = Some a \<Longrightarrow> length (snd a) < length (snd n)"
  by (cases n) (auto split: list.splits step.splits dest!: arg_cong [where f = length])

lemma host_shorter: "host n = Some a \<Longrightarrow> length (snd a) < length (snd n)"
  by (cases n) (auto split: list.splits step.splits dest!: arg_cong [where f = length])

function getRootNode :: "node \<Rightarrow> node" where
  "getRootNode n = (case parentNode n of None \<Rightarrow> n | Some p \<Rightarrow> getRootNode p)"
  by pat_completeness auto
termination
  by (relation "measure (\<lambda>n. length (snd n))") (auto dest: parentNode_shorter)

text \<open>
  Document order: the descendants of a node, each before its own descendants and
  before its later siblings. Neither a shadow root nor a template's content is among
  the descendants of the host.
\<close>

fun descendants :: "tree \<Rightarrow> step list list"
  and descendants_list :: "nat \<Rightarrow> tree list \<Rightarrow> step list list" where
  "descendants (Node c t a ks s ct) = descendants_list 0 ks"
| "descendants_list i [] = []"
| "descendants_list i (k # ks) =
     [Child i] # map ((#) (Child i)) (descendants k) @ descendants_list (Suc i) ks"

definition querySelectorAll_attr :: "dom \<Rightarrow> node \<Rightarrow> string \<Rightarrow> node list" where
  "querySelectorAll_attr d rt a =
     (case node_at d rt of
        None \<Rightarrow> []
      | Some t \<Rightarrow>
          filter (\<lambda>n. instanceof d n Element \<and> hasAttribute d n a)
            (map (\<lambda>p. (fst rt, snd rt @ p)) (descendants t)))"

section \<open>Owning component\<close>

definition getAncestor :: "dom \<Rightarrow> node \<Rightarrow> node option" where
  "getAncestor d n =
     (case parentNode n of
        Some p \<Rightarrow> Some p
      | None \<Rightarrow>
          (let rt = getRootNode n in
           if instanceof d rt ShadowRoot then host rt else None))"

lemma getRootNode_orphan: "parentNode n = None \<Longrightarrow> getRootNode n = n"
  by simp

lemma getAncestor_shorter:
  "getAncestor d n = Some a \<Longrightarrow> length (snd a) < length (snd n)"
  unfolding getAncestor_def
  by (auto split: option.splits if_splits dest: parentNode_shorter host_shorter)

function getClosestComponent :: "dom \<Rightarrow> node option \<Rightarrow> node option" where
  "getClosestComponent d None = None"
| "getClosestComponent d (Some n) =
     (if instanceof d n Component then Some n
      else if instanceof d n HTMLElement
              \<and> endsWith (toLowerCase (tagName_of d n)) ''-component'' then Some n
      else (case getAncestor d n of
              Some ancestor \<Rightarrow> getClosestComponent d (Some ancestor)
            | None \<Rightarrow> None))"
  by pat_completeness auto
termination
  by (relation "measure (\<lambda>(d, n). case n of None \<Rightarrow> 0 | Some m \<Rightarrow> Suc (length (snd m)))")
     (auto dest: getAncestor_shorter)

definition isDescendant :: "dom \<Rightarrow> node \<Rightarrow> node \<Rightarrow> bool" where
  "isDescendant d self n = (getClosestComponent d (getAncestor d n) = Some self)"

section \<open>Ref tracker\<close>

text \<open>
  The \<open>refs\<close> object of a component: its own properties, from slot name to one element
  or to a sequence of elements. It is created by an object literal, so besides its own
  properties the \<open>in\<close> operator also finds the properties every object inherits, and a
  write to \<open>__proto__\<close> is consumed by the inherited accessor: it replaces the prototype
  and creates no own property. What the replaced prototype would add to \<open>in\<close> is not
  tracked; results about required refs are stated for scans in which no marker names
  that slot.
\<close>

datatype ref_value = Single node | Many "node list"

type_synonym refs = "string \<rightharpoonup> ref_value"



definition Object_prototype :: "string list" where
  "Object_prototype =
     [''constructor'', ''__defineGetter__'', ''__defineSetter__'', ''hasOwnProperty'',
      ''__lookupGetter__'', ''__lookupSetter__'', ''isPrototypeOf'', ''propertyIsEnumerable'',
      ''toString'', ''valueOf'', ''__proto__'', ''toLocaleString'']"

definition in_refs :: "string \<Rightarrow> refs \<Rightarrow> bool" where
  "in_refs k r = (r k \<noteq> None \<or> k \<in> set Object_prototype)"

definition assign :: "refs \<Rightarrow> string \<Rightarrow> ref_value \<Rightarrow> refs" where
  "assign r k v = (if k = ''__proto__'' then r else r(k \<mapsto> v))"

datatype error = MissingRefError string

definition MissingRefError_message :: "string \<Rightarrow> string \<Rightarrow> string" where
  "MissingRefError_message ref tag =
     ''Required ref '' @ [CHR 0x22] @ ref @ [CHR 0x22] @ '' not found in component ''
       @ toLowerCase tag"

record component =
  self :: node
  refs :: refs
  requiredRefs :: "string list option"

definition roots :: "dom \<Rightarrow> node \<Rightarrow> node list" where
  "roots d n =
     (case node_at d n of
        None \<Rightarrow> [n]
      | Some t \<Rightarrow>
          (case shadowRoot t of
             None \<Rightarrow> [n]
           | Some s \<Rightarrow> [n, (fst n, snd n @ [Shadow])]))"

definition set_add :: "'a \<Rightarrow> 'a list \<Rightarrow> 'a list" where
  "set_add x xs = (if x \<in> set xs then xs else xs @ [x])"

definition scan_root :: "dom \<Rightarrow> node \<Rightarrow> node \<Rightarrow> node list \<Rightarrow> node list" where
  "scan_root d slf rt acc =
     fold (\<lambda>element acc. if \<not> isDescendant d slf element then acc else set_add element acc)
       (querySelectorAll_attr d rt ''ref'') acc"

definition elements :: "dom \<Rightarrow> node \<Rightarrow> node list" where
  "elements d slf = fold (scan_root d slf) (roots d slf) []"

definition refName_of :: "dom \<Rightarrow> node \<Rightarrow> string" where
  "refName_of d ref = (case getAttribute d ref ''ref'' of Some v \<Rightarrow> v | None \<Rightarrow> [])"

definition path_of :: "string \<Rightarrow> string" where
  "path_of refName =
     (if endsWith refName ''[]'' then take (length refName - 2) refName else refName)"

definition store_ref :: "dom \<Rightarrow> node \<Rightarrow> refs \<Rightarrow> refs" where
  "store_ref d ref rs =
     (let refName = refName_of d ref;
          isArray = endsWith refName ''[]'';
          path = path_of refName
      in if isArray
         then (let array = (case rs path of Some (Many xs) \<Rightarrow> xs | _ \<Rightarrow> [])
               in assign rs path (Many (array @ [ref])))
         else assign rs path (Single ref))"

definition build_refs :: "dom \<Rightarrow> node \<Rightarrow> refs" where
  "build_refs d slf = fold (store_ref d) (elements d slf) Map.empty"

fun first_missing :: "string list \<Rightarrow> refs \<Rightarrow> string option" where
  "first_missing [] rs = None"
| "first_missing (ref # rest) rs =
     (if \<not> in_refs ref rs then Some ref else first_missing rest rs)"

definition updateRefs :: "dom \<Rightarrow> component \<Rightarrow> (error + unit) \<times> component" where
  "updateRefs d c =
     (let rs = build_refs d (self c);
          missing = (case requiredRefs c of
                       None \<Rightarrow> None
                     | Some required \<Rightarrow>
                         if length required \<noteq> 0 then first_missing required rs else None)
      in case missing of
           Some ref \<Rightarrow>
             (Inl (MissingRefError (MissingRefError_message ref (tagName_of d (self c)))), c)
         | None \<Rightarrow> (Inr (), c\<lparr>refs := rs\<rparr>))"

section \<open>Mutation observer\<close>

text \<open>
  A record of the batch the observer delivers. The callback runs against the snapshot
  of the DOM at delivery, after the mutations have happened: a node that was removed
  (and not inserted again) is then the root of a detached tree.
\<close>

record mutation =
  mtype :: string
  mtarget :: node
  addedNodes :: "node list"
  removedNodes :: "node list"

definition mutationObserver_callback ::
  "dom \<Rightarrow> component \<Rightarrow> mutation list \<Rightarrow> (error + unit) \<times> component" where
  "mutationObserver_callback d c mutations =
     (if list_ex (\<lambda>m. (mtype m = ''attributes'' \<and> isDescendant d (self c) (mtarget m))
                      \<or> (mtype m = ''childList''
                          \<and> list_ex (isDescendant d (self c)) (addedNodes m @ removedNodes m)))
           mutations
      then updateRefs d c
      else (Inr (), c))"

text \<open>
  \<open>node.remove()\<close>, as the observer sees it: the node leaves the children of its parent
  and becomes the root of a detached tree, the last of the new snapshot, and one record
  of the removal is queued. Positions are positions in a snapshot, so the nodes after
  the removed one among its siblings are named by a smaller index in the new one.
\<close>

fun delete_subtree :: "step list \<Rightarrow> tree \<Rightarrow> tree" where
  "delete_subtree [] t = t"
| "delete_subtree [Child i] t =
     Node (cls t) (tagName t) (attributes t)
       (take i (childNodes t) @ drop (Suc i) (childNodes t)) (shadowRoot t) (content t)"
| "delete_subtree (Child i # p) t =
     (if i < length (childNodes t)
      then Node (cls t) (tagName t) (attributes t)
             ((childNodes t)[i := delete_subtree p (childNodes t ! i)])
             (shadowRoot t) (content t)
      else t)"
| "delete_subtree (Shadow # p) t =
     (case shadowRoot t of
        None \<Rightarrow> t
      | Some s \<Rightarrow>
          Node (cls t) (tagName t) (attributes t) (childNodes t)
            (Some (delete_subtree p s)) (content t))"

definition remove_node :: "dom \<Rightarrow> node \<Rightarrow> dom \<times> mutation list" where
  "remove_node d n =
     (case (node_at d n, parentNode n) of
        (Some t, Some p) \<Rightarrow>
          (d[fst n := delete_subtree (snd n) (d ! fst n)] @ [t],
           [\<lparr>mtype = ''childList'', mtarget = p, addedNodes = [],
             removedNodes = [(length d, [])]\<rparr>])
      | _ \<Rightarrow> (d, []))"

section \<open>Shadow hydrator\<close>

definition localName :: "tree \<Rightarrow> string" where
  "localName t =
     (if HTMLElement \<in> set (superclasses (cls t)) then toLowerCase (tagName t) else tagName t)"

text \<open>The selector \<open>:scope > template[shadowrootmode="open"]\<close>, tried on a child of the host.\<close>

definition template_selector :: "tree \<Rightarrow> bool" where
  "template_selector t =
     (Element \<in> set (superclasses (cls t)) \<and> localName t = ''template''
      \<and> map_of (attributes t) ''shadowrootmode'' = Some ''open'')"

text \<open>
  \<open>attachShadow\<close> followed by \<open>append\<close> of a deep clone of the template's content: the
  nodes of the clone become the children of the new shadow root. A clone is equal to
  its original as a value and is a different node, at a different position.
\<close>

definition attachShadow_append :: "tree \<Rightarrow> tree list \<Rightarrow> tree" where
  "attachShadow_append this fragment =
     Node (cls this) (tagName this) (attributes this) (childNodes this)
       (Some (Node ShadowRoot [] [] fragment None [])) (content this)"

definition cloneNode_deep :: "tree list \<Rightarrow> tree list" where
  "cloneNode_deep fragment = fragment"

definition DeclarativeShadowElement_connectedCallback :: "tree \<Rightarrow> tree" where
  "DeclarativeShadowElement_connectedCallback this =
     (case shadowRoot this of
        Some s \<Rightarrow> this
      | None \<Rightarrow>
          (case find template_selector (childNodes this) of
             None \<Rightarrow> this
           | Some template \<Rightarrow>
               if HTMLTemplateElement \<notin> set (superclasses (cls template)) then this
               else attachShadow_append this (cloneNode_deep (content template))))"

fun update_subtree :: "(tree \<Rightarrow> tree) \<Rightarrow> step list \<Rightarrow> tree \<Rightarrow> tree" where
  "update_subtree f [] t = f t"
| "update_subtree f (Child i # p) t =
     (if i < length (childNodes t)
      then Node (cls t) (tagName t) (attributes t)
             ((childNodes t)[i := update_subtree f p (childNodes t ! i)])
             (shadowRoot t) (content t)
      else t)"
| "update_subtree f (Shadow # p) t =
     (case shadowRoot t of
        None \<Rightarrow> t
      | Some s \<Rightarrow>
          Node (cls t) (tagName t) (attributes t) (childNodes t)
            (Some (update_subtree f p s)) (content t))"

definition update_at :: "(tree \<Rightarrow> tree) \<Rightarrow> node \<Rightarrow> dom \<Rightarrow> dom" where
  "update_at f n d =
     (if fst n < length d then d[fst n := update_subtree f (snd n) (d ! fst n)] else d)"

section \<open>Scheduler\<close>

text \<open>
  A task is known by its identity. The queue is a set that iterates in insertion
  order. Around the scheduler stands as much of the event loop as it uses: whether a
  view transition is in flight, the calls of \<open>schedule\<close> suspended on it, the frame
  callbacks requested, the timers set by \<open>flush\<close>, and the log of the tasks run.
\<close>

type_synonym task = nat

record scheduler =
  queue :: "task list"
  scheduled :: bool
  viewTransition_current :: bool
  awaiting :: nat
  frame_requests :: nat
  timers :: "task list"
  executed :: "task list"

definition schedule :: "task \<Rightarrow> scheduler \<Rightarrow> scheduler" where
  "schedule t s =
     (let s1 = s\<lparr>queue := set_add t (queue s)\<rparr> in
      if \<not> scheduled s1
      then (let s2 = s1\<lparr>scheduled := True\<rparr> in
            if viewTransition_current s2
            then s2\<lparr>awaiting := awaiting s2 + 1\<rparr>
            else s2\<lparr>frame_requests := frame_requests s2 + 1\<rparr>)
      else s1)"

definition flush :: "scheduler \<Rightarrow> scheduler" where
  "flush s = s\<lparr>timers := timers s @ queue s, queue := [], scheduled := False\<rparr>"

text \<open>The transition settles: every suspended call of \<open>schedule\<close> resumes and requests a frame.\<close>

definition transition_finished :: "scheduler \<Rightarrow> scheduler" where
  "transition_finished s =
     s\<lparr>viewTransition_current := False,
       frame_requests := frame_requests s + awaiting s,
       awaiting := 0\<rparr>"

text \<open>An animation frame runs every frame callback requested; each one is \<open>flush\<close>.\<close>

definition animation_frame :: "scheduler \<Rightarrow> scheduler" where
  "animation_frame s = ((flush ^^ frame_requests s) (s\<lparr>frame_requests := 0\<rparr>))"

text \<open>The timers of delay zero fire in the order they were set, each in a turn of its own.\<close>

definition run_timers :: "scheduler \<Rightarrow> scheduler" where
  "run_timers s = s\<lparr>executed := executed s @ timers s, timers := []\<rparr>"

section \<open>Event delegation router\<close>

subsection \<open>What the browser provides\<close>

text \<open>
  Two services of the browser are parameters of the router. \<open>css\<close> parses a selector
  string: \<open>None\<close> when the string is not a selector (then \<open>closest\<close> and
  \<open>querySelector\<close> raise a \<open>SyntaxError\<close>), else the test an element must pass.
  \<open>Number\<close> is the conversion of a string to a number.
\<close>

datatype jsnumber = NaN | Finite rat | PosInfinity | NegInfinity

record platform =
  css :: "string \<Rightarrow> (dom \<Rightarrow> node \<Rightarrow> bool) option"
  Number :: "string \<Rightarrow> jsnumber"

datatype dom_exception = SyntaxError string

definition parentElement :: "dom \<Rightarrow> node \<Rightarrow> node option" where
  "parentElement d n =
     (case parentNode n of
        None \<Rightarrow> None
      | Some p \<Rightarrow> if instanceof d p Element then Some p else None)"

lemma parentElement_shorter:
  "parentElement d n = Some a \<Longrightarrow> length (snd a) < length (snd n)"
  unfolding parentElement_def
  by (auto split: option.splits if_splits dest: parentNode_shorter)

function closest_matching :: "dom \<Rightarrow> (node \<Rightarrow> bool) \<Rightarrow> node \<Rightarrow> node option" where
  "closest_matching d m n =
     (if m n then Some n
      else (case parentElement d n of
              None \<Rightarrow> None
            | Some p \<Rightarrow> closest_matching d m p))"
  by pat_completeness auto
termination
  by (relation "measure (\<lambda>(d, m, n). length (snd n))") (auto dest: parentElement_shorter)

definition closest_attr :: "dom \<Rightarrow> node \<Rightarrow> string \<Rightarrow> node option" where
  "closest_attr d n a = closest_matching d (\<lambda>x. hasAttribute d x a) n"

definition closest :: "platform \<Rightarrow> dom \<Rightarrow> node \<Rightarrow> string \<Rightarrow> dom_exception + node option" where
  "closest pf d n selector =
     (case css pf selector of
        None \<Rightarrow> Inl (SyntaxError selector)
      | Some m \<Rightarrow> Inr (closest_matching d (m d) n))"

definition document_querySelector ::
  "platform \<Rightarrow> dom \<Rightarrow> string \<Rightarrow> dom_exception + node option" where
  "document_querySelector pf d selector =
     (case css pf selector of
        None \<Rightarrow> Inl (SyntaxError selector)
      | Some m \<Rightarrow>
          Inr (case d of
                 [] \<Rightarrow> None
               | t # _ \<Rightarrow>
                   find (\<lambda>n. instanceof d n Element \<and> m d n)
                     (map (\<lambda>p. (0, p)) (descendants t))))"

text \<open>\<open>String.prototype.split\<close> with a one-character separator.\<close>

fun js_split :: "char \<Rightarrow> string \<Rightarrow> string list" where
  "js_split sep [] = [[]]"
| "js_split sep (x # xs) =
     (if x = sep then [] # js_split sep xs
      else (case js_split sep xs of [] \<Rightarrow> [[x]] | y # ys \<Rightarrow> (x # y) # ys))"

definition whitespace :: "char \<Rightarrow> bool" where
  "whitespace c = (c \<in> set [CHR 0x09, CHR 0x0A, CHR 0x0B, CHR 0x0C, CHR 0x0D, CHR '' ''])"

definition trim :: "string \<Rightarrow> string" where
  "trim s = rev (dropWhile whitespace (rev (dropWhile whitespace s)))"

text \<open>
  \<open>new URLSearchParams(data).entries()\<close>: the pieces between \<open>&\<close> that are not empty,
  each cut at its first \<open>=\<close>, with \<open>+\<close> read as a space and \<open>%XX\<close> as the byte it
  names.
\<close>

definition hex_digit :: "char \<Rightarrow> nat option" where
  "hex_digit c =
     (let n = (of_char c :: nat) in
      if 48 \<le> n \<and> n \<le> 57 then Some (n - 48)
      else if 65 \<le> n \<and> n \<le> 70 then Some (n - 55)
      else if 97 \<le> n \<and> n \<le> 102 then Some (n - 87)
      else None)"

fun percent_decode :: "string \<Rightarrow> string" where
  "percent_decode (c # h # l # cs) =
     (if c = CHR ''%''
      then (case (hex_digit h, hex_digit l) of
              (Some a, Some b) \<Rightarrow> char_of (16 * a + b) # percent_decode cs
            | _ \<Rightarrow> c # percent_decode (h # l # cs))
      else c # percent_decode (h # l # cs))"
| "percent_decode cs = cs"

definition form_decode :: "string \<Rightarrow> string" where
  "form_decode s = percent_decode (map (\<lambda>c. if c = CHR ''+'' then CHR '' '' else c) s)"

definition URLSearchParams_entries :: "string \<Rightarrow> (string \<times> string) list" where
  "URLSearchParams_entries s =
     map (\<lambda>piece. (form_decode (takeWhile (\<lambda>c. c \<noteq> CHR ''='') piece),
                    form_decode (drop 1 (dropWhile (\<lambda>c. c \<noteq> CHR ''='') piece))))
       (filter (\<lambda>piece. piece \<noteq> [])
          (js_split CHR ''&'' (if startsWith s ''?'' then drop 1 s else s)))"

subsection \<open>Payload\<close>

datatype scalar = VBool bool | VNumber jsnumber | VString string

datatype data = Scalar scalar | Object "string \<rightharpoonup> scalar"

definition parseValue :: "platform \<Rightarrow> string \<Rightarrow> scalar" where
  "parseValue pf str =
     (if str = ''true'' then VBool True
      else if str = ''false'' then VBool False
      else (let maybeNumber = Number pf str in
            if maybeNumber \<noteq> NaN \<and> trim str \<noteq> [] then VNumber maybeNumber
            else VString str))"

text \<open>\<open>Object.fromEntries\<close>: of two entries with one key the later one stays.\<close>

definition fromEntries :: "(string \<times> scalar) list \<Rightarrow> (string \<rightharpoonup> scalar)" where
  "fromEntries entries = map_of (rev entries)"

definition parseData :: "platform \<Rightarrow> string \<Rightarrow> data" where
  "parseData pf str =
     (let delimiter = take 1 str; payload = drop 1 str in
      if delimiter = ''?''
      then Object (fromEntries
                     (map (\<lambda>(key, v). (key, parseValue pf v)) (URLSearchParams_entries payload)))
      else Scalar (parseValue pf payload))"

subsection \<open>The listener\<close>

record event =
  etype :: string
  target :: "node option"
  composedPath :: "node list option"
  bubbles :: bool

definition events :: "string list" where
  "events = [''click'', ''change'', ''select'', ''focus'', ''blur'', ''submit'', ''input'',
             ''keydown'', ''keyup'', ''toggle'']"

definition shouldBubble :: "string list" where
  "shouldBubble = [''focus'', ''blur'']"

definition expensiveEvents :: "string list" where
  "expensiveEvents = [''pointerenter'', ''pointerleave'']"

text \<open>The element an event starts from: the head of the composed path, else the target.\<close>

definition origin :: "event \<Rightarrow> node option" where
  "origin ev = (case composedPath ev of Some (x # _) \<Rightarrow> Some x | _ \<Rightarrow> target ev)"

definition getElement :: "dom \<Rightarrow> event \<Rightarrow> node option" where
  "getElement d ev =
     (case origin ev of
        None \<Rightarrow> None
      | Some tg \<Rightarrow>
          if \<not> instanceof d tg Element then None
          else if hasAttribute d tg (''on:'' @ etype ev) then Some tg
          else if etype ev \<in> set expensiveEvents then None
          else if bubbles ev \<or> etype ev \<in> set shouldBubble
               then closest_attr d tg (''on:'' @ etype ev)
               else None)"

text \<open>
  The pattern \<open>([/?][^/?]+)([/?][^/?]+)$\<close>: the value ends with a delimiter, one or more
  other characters, a delimiter, one or more other characters. Its second group is the
  last delimiter with what follows it.
\<close>

definition delimiter :: "char \<Rightarrow> bool" where
  "delimiter c = (c = CHR ''/'' \<or> c = CHR ''?'')"

definition match_data :: "string \<Rightarrow> string option" where
  "match_data v =
     (let r = rev v;
          last_part = takeWhile (\<lambda>c. \<not> delimiter c) r;
          r1 = dropWhile (\<lambda>c. \<not> delimiter c) r
      in if last_part = [] \<or> r1 = [] then None
         else (let middle = takeWhile (\<lambda>c. \<not> delimiter c) (tl r1);
                   r2 = dropWhile (\<lambda>c. \<not> delimiter c) (tl r1)
               in if middle = [] \<or> r2 = [] then None
                  else Some (hd r1 # rev last_part)))"

text \<open>\<open>method.replace(/\?.*/, '')\<close>: the dot stops at a line terminator.\<close>

definition line_terminator :: "char \<Rightarrow> bool" where
  "line_terminator c = (c = CHR 0x0A \<or> c = CHR 0x0D)"

definition strip_query :: "string \<Rightarrow> string" where
  "strip_query m =
     takeWhile (\<lambda>c. c \<noteq> CHR ''?'') m
       @ dropWhile (\<lambda>c. \<not> line_terminator c) (drop 1 (dropWhile (\<lambda>c. c \<noteq> CHR ''?'') m))"

text \<open>
  A callable property of a component instance takes the payload (when the binding has
  one) and the event; it returns, or it throws a value. What the listener does is
  recorded: the calls it made, what it wrote to the console, and the exception that
  left it, if one did.
\<close>

datatype thrown = Thrown string

type_synonym callable = "data option \<Rightarrow> event \<Rightarrow> thrown option"

record invocation =
  receiver :: node
  name :: string
  payload :: "data option"
  passed :: event

record dispatch =
  calls :: "invocation list"
  console_error :: "thrown list"
  uncaught :: "dom_exception option"

definition no_op :: dispatch where
  "no_op = \<lparr>calls = [], console_error = [], uncaught = None\<rparr>"

text \<open>
  The parts of a binding value: \<open>[selector, method] = value.split('/')\<close>, and the
  instance the selector names (the nearest owning component when there is none).
\<close>

definition selector_of :: "string \<Rightarrow> string" where
  "selector_of v = (case js_split CHR ''/'' v of [] \<Rightarrow> [] | x # _ \<Rightarrow> x)"

definition method_of :: "string \<Rightarrow> string option" where
  "method_of v = (case js_split CHR ''/'' v of _ # y # _ \<Rightarrow> Some y | _ \<Rightarrow> None)"

definition resolve_instance ::
  "platform \<Rightarrow> dom \<Rightarrow> node \<Rightarrow> string \<Rightarrow> dom_exception + node option" where
  "resolve_instance pf d element selector =
     (if selector \<noteq> []
      then (if startsWith selector ''#''
            then document_querySelector pf d selector
            else closest pf d element selector)
      else Inr (getClosestComponent d (Some element)))"

text \<open>
  \<open>element.getAttribute(attribute) ?? ''\<close>, and the view of the event handed to the
  method: the event itself, or a proxy of it that answers \<open>target\<close> with the element
  that declared the binding.
\<close>

definition binding_value :: "dom \<Rightarrow> node \<Rightarrow> string \<Rightarrow> string" where
  "binding_value d element attribute =
     (case getAttribute d element attribute of Some x \<Rightarrow> x | None \<Rightarrow> [])"

definition proxy :: "event \<Rightarrow> node \<Rightarrow> event" where
  "proxy ev element = (if target ev \<noteq> Some element then ev\<lparr>target := Some element\<rparr> else ev)"

definition listener ::
  "platform \<Rightarrow> dom \<Rightarrow> (node \<Rightarrow> string \<Rightarrow> callable option) \<Rightarrow> string \<Rightarrow> event \<Rightarrow> dispatch" where
  "listener pf d property eventName ev =
     (let attribute = ''on:'' @ eventName in
      case getElement d ev of
        None \<Rightarrow> no_op
      | Some element \<Rightarrow>
          (let proxiedEvent = proxy ev element;
               v = binding_value d element attribute;
               selector = selector_of v;
               method = method_of v;
               payload_text = match_data v
           in case resolve_instance pf d element selector of
                Inl exn \<Rightarrow> \<lparr>calls = [], console_error = [], uncaught = Some exn\<rparr>
              | Inr inst \<Rightarrow>
                  (case (inst, method) of
                     (Some i, Some m0) \<Rightarrow>
                       if \<not> instanceof d i Component \<or> m0 = [] then no_op
                       else (let m = strip_query m0 in
                             case property i m of
                               None \<Rightarrow> no_op
                             | Some callback \<Rightarrow>
                                 (let arg = map_option (parseData pf) payload_text;
                                      call = \<lparr>receiver = i, name = m, payload = arg,
                                              passed = proxiedEvent\<rparr>
                                  in case callback arg proxiedEvent of
                                       None \<Rightarrow>
                                         \<lparr>calls = [call], console_error = [], uncaught = None\<rparr>
                                     | Some err \<Rightarrow>
                                         \<lparr>calls = [call], console_error = [err],
                                          uncaught = None\<rparr>))
                   | _ \<Rightarrow> no_op)))"

text \<open>
  The one-time setup, and the delivery of an event to the listeners on the document.
\<close>

record router =
  initialized :: bool
  registered :: "string list"

definition registerEventListeners :: "router \<Rightarrow> router" where
  "registerEventListeners r =
     (if initialized r then r
      else r\<lparr>initialized := True, registered := registered r @ events @ expensiveEvents\<rparr>)"


section \<open>Connection of a component\<close>

record page =
  document :: dom
  router :: router
  idle_callbacks :: "node list"

definition Component_connectedCallback ::
  "page \<Rightarrow> component \<Rightarrow> (error + unit) \<times> page \<times> component" where
  "Component_connectedCallback pg c =
     (let pg1 = pg\<lparr>document :=
                     update_at DeclarativeShadowElement_connectedCallback (self c) (document pg)\<rparr>;
          pg2 = pg1\<lparr>router := registerEventListeners (router pg1)\<rparr>;
          (result, c') = updateRefs (document pg2) c
      in case result of
           Inl e \<Rightarrow> (Inl e, pg2, c')
         | Inr u \<Rightarrow> (Inr (), pg2\<lparr>idle_callbacks := idle_callbacks pg2 @ [self c]\<rparr>, c'))"

section \<open>Example pages\<close>

text \<open>
  A cart component with three repeated markers, a nested component with a marker of
  its own, and a button that binds a click and wraps a bare span.
\<close>

definition el :: "node_class \<Rightarrow> string \<Rightarrow> (string \<times> string) list \<Rightarrow> tree list \<Rightarrow> tree" where
  "el c t a ks = Node c t a ks None []"

definition cart_page :: dom where
  "cart_page =
     [Node Document [] []
        [el Component ''CART-COMPONENT'' []
           [el HTMLElement ''DIV'' [(''ref'', ''item[]'')] [],
            el HTMLElement ''SPAN'' [(''ref'', ''item[]'')] [],
            el Component ''X-COMPONENT'' [] [el HTMLElement ''P'' [(''ref'', ''x'')] []],
            el HTMLElement ''LI'' [(''ref'', ''item[]'')] [],
            el HTMLElement ''BUTTON'' [(''ref'', ''foo''), (''on:click'', ''/submit?amount=5'')]
              [el HTMLElement ''SPAN'' [] []]]]
        None []]"


text \<open>The nested component, holding a mapping from an earlier scan, in two configurations.\<close>

definition nested :: "string list \<Rightarrow> component" where
  "nested required =
     \<lparr>self = (0, [Child 0, Child 2]),
      refs = [''x'' \<mapsto> Single (0, [Child 0, Child 2, Child 0])],
      requiredRefs = Some required\<rparr>"

text \<open>A page on which nothing has connected yet.\<close>

definition fresh_page :: "dom \<Rightarrow> page" where
  "fresh_page d =
     \<lparr>document = d, router = \<lparr>initialized = False, registered = []\<rparr>, idle_callbacks = []\<rparr>"

text \<open>
  The same page after the button has been removed from the cart: the button is now a
  detached tree, the second of the snapshot. \<open>cart_connected\<close> is the cart as its scan
  of the page before the removal left it, with the button named by its new position.
\<close>

definition cart_page_removed :: dom where
  "cart_page_removed =
     [Node Document [] []
        [el Component ''CART-COMPONENT'' []
           [el HTMLElement ''DIV'' [(''ref'', ''item[]'')] [],
            el HTMLElement ''SPAN'' [(''ref'', ''item[]'')] [],
            el Component ''X-COMPONENT'' [] [el HTMLElement ''P'' [(''ref'', ''x'')] []],
            el HTMLElement ''LI'' [(''ref'', ''item[]'')] []]]
        None [],
      el HTMLElement ''BUTTON'' [(''ref'', ''foo''), (''on:click'', ''/submit?amount=5'')]
        [el HTMLElement ''SPAN'' [] []]]"

definition removal :: mutation where
  "removal = \<lparr>mtype = ''childList'', mtarget = (0, [Child 0]), addedNodes = [],
              removedNodes = [(1, [])]\<rparr>"

definition cart_connected :: component where
  "cart_connected =
     \<lparr>self = (0, [Child 0]),
      refs = [''item'' \<mapsto> Many [(0, [Child 0, Child 0]), (0, [Child 0, Child 1]), (0, [Child 0, Child 3])],
              ''foo'' \<mapsto> Single (1, [])],
      requiredRefs = None\<rparr>"

text \<open>A host with a declarative shadow-root template and a paragraph.\<close>

definition card_host :: tree where
  "card_host =
     Node DeclarativeShadowElement ''MY-CARD'' []
       [Node HTMLTemplateElement ''TEMPLATE'' [(''shadowrootmode'', ''open'')] [] None
          [el HTMLElement ''SLOT'' [] []],
        el HTMLElement ''P'' [] []]
       None []"

text \<open>A scheduler with nothing pending, with or without a view transition in flight.\<close>

definition idle :: "scheduler \<Rightarrow> bool" where
  "idle s = (queue s = [] \<and> \<not> scheduled s \<and> awaiting s = 0 \<and> frame_requests s = 0 \<and> timers s = [])"

definition at_rest :: "bool \<Rightarrow> scheduler" where
  "at_rest transition =
     \<lparr>queue = [], scheduled = False, viewTransition_current = transition, awaiting = 0,
      frame_requests = 0, timers = [], executed = []\<rparr>"

text \<open>
  A browser that understands type selectors and id selectors, and whose \<open>Number\<close> reads
  unsigned decimal integers. A click that starts at a given node. The cart's methods:
  \<open>submit\<close> returns, \<open>explode\<close> throws.
\<close>

definition ident_char :: "char \<Rightarrow> bool" where
  "ident_char c =
     (let n = (of_char c :: nat) in
      (48 \<le> n \<and> n \<le> 57) \<or> (65 \<le> n \<and> n \<le> 90) \<or> (97 \<le> n \<and> n \<le> 122) \<or> n = 45 \<or> n = 95)"

definition digit_char :: "char \<Rightarrow> bool" where
  "digit_char c = (let n = (of_char c :: nat) in 48 \<le> n \<and> n \<le> 57)"

definition browser :: platform where
  "browser =
     \<lparr>css = (\<lambda>s. if s \<noteq> [] \<and> list_all ident_char s
                  then Some (\<lambda>d n. toLowerCase (tagName_of d n) = toLowerCase s)
                  else if startsWith s ''#'' \<and> tl s \<noteq> [] \<and> list_all ident_char (tl s)
                  then Some (\<lambda>d n. getAttribute d n ''id'' = Some (tl s))
                  else None),
      Number = (\<lambda>s. if s \<noteq> [] \<and> list_all digit_char s
                     then Finite (of_nat (foldl (\<lambda>n c. 10 * n + (of_char c - 48)) 0 s))
                     else NaN)\<rparr>"

definition click :: "node \<Rightarrow> event" where
  "click n = \<lparr>etype = ''click'', target = Some n, composedPath = Some [n], bubbles = True\<rparr>"

definition handlers :: "node \<Rightarrow> string \<Rightarrow> callable option" where
  "handlers n m =
     (if n = (0, [Child 0]) \<and> m = ''submit'' then Some (\<lambda>a e. None)
      else if n = (0, [Child 0]) \<and> m = ''explode'' then Some (\<lambda>a e. Some (Thrown ''boom''))
      else None)"

text \<open>
  A component with four buttons: a binding whose selector is not a selector and that has
  no method, a binding with a selector and no method, a binding to a method that throws,
  and a binding to a method the component does not have.
\<close>

definition panel_page :: dom where
  "panel_page =
     [Node Document [] []
        [el Component ''PANEL-COMPONENT'' []
           [el HTMLElement ''BUTTON'' [(''on:click'', ''['')] [],
            el HTMLElement ''BUTTON'' [(''on:click'', ''panel-component'')] [],
            el HTMLElement ''BUTTON'' [(''on:click'', ''/explode'')] [],
            el HTMLElement ''BUTTON'' [(''on:click'', ''/missing'')] []]]
        None []]"

section \<open>Properties of the ref tracker\<close>







lemma fold_guarded_add_list:
  "distinct (acc @ qs) \<Longrightarrow>
     fold (\<lambda>x acc. if \<not> P x then acc else set_add x acc) qs acc = acc @ filter P qs"
proof (induction qs arbitrary: acc)
  case Nil
  show ?case by simp
next
  case (Cons q qs)
  show ?case
  proof (cases "P q")
    case True
    have fresh: "q \<notin> set acc" using Cons.prems by auto
    have "distinct ((acc @ [q]) @ qs)" using Cons.prems by auto
    from Cons.IH [OF this] show ?thesis using True fresh by (simp add: set_add_def)
  next
    case False
    have "distinct (acc @ qs)" using Cons.prems by auto
    from Cons.IH [OF this] show ?thesis using False by simp
  qed
qed

lemma descendants_shape:
  "(\<forall>p \<in> set (descendants t). p \<noteq> [])"
  "(\<forall>p \<in> set (descendants_list i ks). \<exists>j q. i \<le> j \<and> p = Child j # q)"
proof (induction t and i ks rule: descendants_descendants_list.induct)
  case (1 c t a ks s ct)
  then show ?case by auto
next
  case (2 i)
  show ?case by simp
next
  case (3 i k ks)
  show ?case
  proof
    fix p assume "p \<in> set (descendants_list i (k # ks))"
    then consider "p = [Child i]" | "p \<in> (#) (Child i) ` set (descendants k)"
      | "p \<in> set (descendants_list (Suc i) ks)"
      by auto
    then show "\<exists>j q. i \<le> j \<and> p = Child j # q"
    proof cases
      case 1
      then show ?thesis by blast
    next
      case 2
      then show ?thesis by blast
    next
      case 3
      then obtain j q where "Suc i \<le> j" "p = Child j # q" using "3.IH"(2) by blast
      then show ?thesis using Suc_leD by blast
    qed
  qed
qed

lemma descendants_distinct:
  "distinct (descendants t)"
  "distinct (descendants_list i ks)"
proof (induction t and i ks rule: descendants_descendants_list.induct)
  case (1 c t a ks s ct)
  then show ?case by simp
next
  case (2 i)
  show ?case by simp
next
  case (3 i k ks)
  have inj: "distinct (map ((#) (Child i)) (descendants k))"
    using "3.IH"(1) by (simp add: distinct_map)
  have a: "[Child i] \<notin> (#) (Child i) ` set (descendants k)"
    using descendants_shape(1) [of k] by auto
  have later: "\<forall>p \<in> set (descendants_list (Suc i) ks). \<exists>j q. Suc i \<le> j \<and> p = Child j # q"
    by (rule descendants_shape(2))
  have b: "[Child i] \<notin> set (descendants_list (Suc i) ks)"
    using later by fastforce
  have c: "(#) (Child i) ` set (descendants k) \<inter> set (descendants_list (Suc i) ks) = {}"
    using later by fastforce
  show ?case using inj a b c "3.IH"(2) by simp
qed

lemma querySelectorAll_attr_distinct: "distinct (querySelectorAll_attr d rt a)"
proof (cases "node_at d rt")
  case None
  then show ?thesis by (simp add: querySelectorAll_attr_def)
next
  case (Some t)
  have "distinct (map (\<lambda>p. (fst rt, snd rt @ p)) (descendants t))"
    using descendants_distinct(1) [of t] by (simp add: distinct_map inj_on_def)
  then show ?thesis using Some by (simp add: querySelectorAll_attr_def)
qed

lemma querySelectorAll_attr_below:
  "n \<in> set (querySelectorAll_attr d rt a) \<Longrightarrow> \<exists>j q. n = (fst rt, snd rt @ Child j # q)"
proof (cases "node_at d rt")
  case None
  assume "n \<in> set (querySelectorAll_attr d rt a)"
  then show ?thesis using None by (simp add: querySelectorAll_attr_def)
next
  case (Some t)
  assume "n \<in> set (querySelectorAll_attr d rt a)"
  then obtain p where p: "p \<in> set (descendants t)" "n = (fst rt, snd rt @ p)"
    using Some by (auto simp: querySelectorAll_attr_def)
  obtain c tg atts ks s ct where t: "t = Node c tg atts ks s ct" by (cases t)
  have "p \<in> set (descendants_list 0 ks)" using p(1) t by simp
  then obtain j q where "p = Child j # q" using descendants_shape(2) [of 0 ks] by blast
  then show ?thesis using p(2) by blast
qed

text \<open>
  The set that the scan fills iterates in the order of insertion, and no element is met
  twice: the elements of a scan are the qualifying descendants in document order, those
  of the component's own tree before those of its shadow root.
\<close>

lemma elements_scan_order:
  "elements d slf
     = filter (isDescendant d slf)
         (concat (map (\<lambda>rt. querySelectorAll_attr d rt ''ref'') (roots d slf)))"
proof -
  let ?P = "isDescendant d slf"
  have one: "scan_root d slf rt [] = filter ?P (querySelectorAll_attr d rt ''ref'')" for rt
    unfolding scan_root_def
    using fold_guarded_add_list [of "[]" "querySelectorAll_attr d rt ''ref''" ?P]
    by (simp add: querySelectorAll_attr_distinct)
  have "roots d slf = [slf] \<or> roots d slf = [slf, (fst slf, snd slf @ [Shadow])]"
    by (simp add: roots_def split: option.splits)
  then consider "roots d slf = [slf]" | "roots d slf = [slf, (fst slf, snd slf @ [Shadow])]"
    by blast
  then show ?thesis
  proof cases
    case 1
    then show ?thesis by (simp add: elements_def one)
  next
    case 2
    let ?light = "querySelectorAll_attr d slf ''ref''"
    let ?shadow = "querySelectorAll_attr d (fst slf, snd slf @ [Shadow]) ''ref''"
    have apart: "set ?light \<inter> set ?shadow = {}"
    proof (rule ccontr)
      assume "set ?light \<inter> set ?shadow \<noteq> {}"
      then obtain n where "n \<in> set ?light" "n \<in> set ?shadow" by blast
      then obtain j q j' q' where "n = (fst slf, snd slf @ Child j # q)"
        "n = (fst slf, (snd slf @ [Shadow]) @ Child j' # q')"
        using querySelectorAll_attr_below [of n d slf] 
              querySelectorAll_attr_below [of n d "(fst slf, snd slf @ [Shadow])"]
        by auto
      then show False by simp
    qed
    have "distinct (filter ?P ?light @ ?shadow)"
      using querySelectorAll_attr_distinct [of d slf] 
            querySelectorAll_attr_distinct [of d "(fst slf, snd slf @ [Shadow])"] apart
      by auto
    then have "scan_root d slf (fst slf, snd slf @ [Shadow]) (filter ?P ?light)
                 = filter ?P ?light @ filter ?P ?shadow"
      unfolding scan_root_def by (rule fold_guarded_add_list)
    then show ?thesis using 2 by (simp add: elements_def one)
  qed
qed

lemma store_ref_unfold:
  "store_ref d e rs =
     (if endsWith (refName_of d e) ''[]''
      then assign rs (path_of (refName_of d e))
             (Many ((case rs (path_of (refName_of d e)) of
                       Some (Many xs) \<Rightarrow> xs | _ \<Rightarrow> []) @ [e]))
      else assign rs (path_of (refName_of d e)) (Single e))"
  by (simp add: store_ref_def Let_def)

lemma assign_other: "k \<noteq> p \<Longrightarrow> assign rs k v p = rs p"
  by (simp add: assign_def)








lemma updateRefs_cases:
  "(fst (updateRefs d c) = Inr () \<and> snd (updateRefs d c) = c\<lparr>refs := build_refs d (self c)\<rparr>)
   \<or> ((\<exists>e. fst (updateRefs d c) = Inl e) \<and> snd (updateRefs d c) = c)"
  unfolding updateRefs_def Let_def by (auto split: option.splits)

lemma updateRefs_installed:
  "fst (updateRefs d c) = Inr () \<Longrightarrow> refs (snd (updateRefs d c)) = build_refs d (self c)"
  using updateRefs_cases [of d c] by auto

lemma updateRefs_failed: "fst (updateRefs d c) = Inl e \<Longrightarrow> snd (updateRefs d c) = c"
  using updateRefs_cases [of d c] by auto







lemma fold_store_ref_untouched:
  "\<forall>e \<in> set es. path_of (refName_of d e) \<noteq> p \<Longrightarrow> fold (store_ref d) es rs p = rs p"
proof (induction es arbitrary: rs)
  case Nil
  show ?case by simp
next
  case (Cons e es)
  have "store_ref d e rs p = rs p"
    using Cons.prems by (simp add: store_ref_unfold assign_other)
  then show ?case using Cons.IH [of "store_ref d e rs"] Cons.prems by simp
qed

lemma first_missing_found:
  assumes "\<forall>r \<in> set present. in_refs r rs" and "\<not> in_refs foo rs"
  shows "first_missing (present @ foo # others) rs = Some foo"
  using assms(1) by (induction present) (simp_all add: assms(2))

lemma first_missing_none:
  "first_missing required rs = None \<longleftrightarrow> (\<forall>r \<in> set required. in_refs r rs)"
  by (induction required) auto

lemma updateRefs_missing:
  assumes "requiredRefs c = Some (present @ foo # others)"
    and "\<forall>r \<in> set present. in_refs r (build_refs d (self c))"
    and "\<not> in_refs foo (build_refs d (self c))"
  shows "updateRefs d c =
           (Inl (MissingRefError (MissingRefError_message foo (tagName_of d (self c)))), c)"
proof -
  have "first_missing (present @ foo # others) (build_refs d (self c)) = Some foo"
    using assms(2,3) by (rule first_missing_found)
  then show ?thesis using assms(1) by (simp add: updateRefs_def Let_def)
qed

lemma connectedCallback_raises:
  assumes "update_at DeclarativeShadowElement_connectedCallback (self c) (document pg) = d"
    and "updateRefs d c = (Inl e, c)"
  shows "Component_connectedCallback pg c
           = (Inl e, pg\<lparr>document := d, router := registerEventListeners (router pg)\<rparr>, c)"
  using assms by (simp add: Component_connectedCallback_def Let_def)



section \<open>Claims about the ref tracker\<close>



text \<open>
  C10. A ref computation that raises leaves the component as it was: \<open>refs\<close> is the
  mapping held before. The mapping just built is installed only by a computation that
  completes, and then every required name is in it.
\<close>

theorem failed_computation_keeps_refs:
  "(fst (updateRefs d c) = Inl e \<longrightarrow>
      refs (snd (updateRefs d c)) = refs c \<and> snd (updateRefs d c) = c)
   \<and> (fst (updateRefs d c) = Inr () \<longrightarrow>
        refs (snd (updateRefs d c)) = build_refs d (self c)
        \<and> (\<forall>required. requiredRefs c = Some required \<longrightarrow>
              (\<forall>r \<in> set required. in_refs r (build_refs d (self c)))))"
proof -
  have a: "fst (updateRefs d c) = Inl e \<longrightarrow>
      refs (snd (updateRefs d c)) = refs c \<and> snd (updateRefs d c) = c"
    using updateRefs_failed [of d c e] by simp
  have b: "fst (updateRefs d c) = Inr () \<longrightarrow> refs (snd (updateRefs d c)) = build_refs d (self c)"
    using updateRefs_installed [of d c] by simp
  have c: "fst (updateRefs d c) = Inr () \<longrightarrow> (\<forall>required. requiredRefs c = Some required \<longrightarrow>
              (\<forall>r \<in> set required. in_refs r (build_refs d (self c))))"
  proof (intro impI allI)
    fix required
    assume ok: "fst (updateRefs d c) = Inr ()" and req: "requiredRefs c = Some required"
    have "first_missing required (build_refs d (self c)) = None"
    proof (cases "length required \<noteq> 0")
      case True
      then show ?thesis using ok req
        by (cases "first_missing required (build_refs d (self c))")
           (simp_all add: updateRefs_def Let_def)
    next
      case False
      then show ?thesis by simp
    qed
    then show "\<forall>r \<in> set required. in_refs r (build_refs d (self c))"
      by (simp add: first_missing_none)
  qed
  show ?thesis using a b c by blast
qed

text \<open>
  The nested component of the example page requires \<open>x\<close> and \<open>foo\<close>; \<open>foo\<close> is
  missing, and the mapping of the earlier scan stays.
\<close>

theorem failed_computation_keeps_refs_witness:
  "fst (updateRefs cart_page (nested [''x'', ''foo'']))
     = Inl (MissingRefError (MissingRefError_message ''foo'' ''X-COMPONENT''))
   \<and> refs (snd (updateRefs cart_page (nested [''x'', ''foo'']))) = refs (nested [''x'', ''foo''])
   \<and> snd (updateRefs cart_page (nested [''x'', ''foo''])) = nested [''x'', ''foo'']"
proof -
  have raised: "fst (updateRefs cart_page (nested [''x'', ''foo'']))
     = Inl (MissingRefError (MissingRefError_message ''foo'' ''X-COMPONENT''))"
    by code_simp
  show ?thesis
    using failed_computation_keeps_refs
            [of cart_page "nested [''x'', ''foo'']"
                "MissingRefError (MissingRefError_message ''foo'' ''X-COMPONENT'')"]
          raised
    by blast
qed



text \<open>
  C1 (amended). The required names are checked in the order they are declared, and the
  first one that is absent is the one the error names. So let \<open>foo\<close> be required, let
  every name declared before it be present, let no qualifying descendant be marked
  \<open>foo\<close> or \<open>foo[]\<close>, and let \<open>foo\<close> not be a property every object inherits. Then the
  ref computation raises the error whose message names \<open>foo\<close> and the component's tag in
  lower case, and installs nothing; at connection the error leaves \<open>connectedCallback\<close>
  uncaught, after the shadow root is hydrated and the router set up, and before the
  mutation observer is asked for. (The hypothesis on \<open>__proto__\<close> keeps the scan inside
  what the model of \<open>in\<close> covers.)
\<close>

theorem missing_required_ref_raises:
  assumes "requiredRefs c = Some (present @ foo # others)"
    and "\<forall>r \<in> set present. in_refs r (build_refs d (self c))"
    and "foo \<notin> set Object_prototype"
    and "\<forall>e \<in> set (elements d (self c)). path_of (refName_of d e) \<noteq> foo"
    and "\<forall>e \<in> set (elements d (self c)). path_of (refName_of d e) \<noteq> ''__proto__''"
  shows "updateRefs d c =
           (Inl (MissingRefError (''Required ref '' @ [CHR 0x22] @ foo @ [CHR 0x22]
                   @ '' not found in component '' @ toLowerCase (tagName_of d (self c)))), c)
       \<and> (\<forall>pg. update_at DeclarativeShadowElement_connectedCallback (self c) (document pg) = d \<longrightarrow>
             Component_connectedCallback pg c
               = (Inl (MissingRefError (''Required ref '' @ [CHR 0x22] @ foo @ [CHR 0x22]
                        @ '' not found in component '' @ toLowerCase (tagName_of d (self c)))),
                  pg\<lparr>document := d, router := registerEventListeners (router pg)\<rparr>, c))"
proof -
  have "build_refs d (self c) foo = None"
    unfolding build_refs_def using assms(4) by (simp add: fold_store_ref_untouched)
  then have "\<not> in_refs foo (build_refs d (self c))"
    using assms(3) by (simp add: in_refs_def)
  from updateRefs_missing [OF assms(1,2) this]
  have raised: "updateRefs d c =
           (Inl (MissingRefError (''Required ref '' @ [CHR 0x22] @ foo @ [CHR 0x22]
                   @ '' not found in component '' @ toLowerCase (tagName_of d (self c)))), c)"
    by (simp add: MissingRefError_message_def)
  show ?thesis using raised connectedCallback_raises [OF _ raised] by blast
qed

text \<open>
  The nested component of the example page requires \<open>x\<close>, which it has, and \<open>foo\<close>,
  which it has not; it connects on a fresh page.
\<close>

theorem missing_required_ref_raises_witness:
  "updateRefs cart_page (nested [''x'', ''foo'']) =
     (Inl (MissingRefError (''Required ref '' @ [CHR 0x22] @ ''foo'' @ [CHR 0x22]
             @ '' not found in component x-component'')), nested [''x'', ''foo''])
   \<and> Component_connectedCallback (fresh_page cart_page) (nested [''x'', ''foo'']) =
       (Inl (MissingRefError (''Required ref '' @ [CHR 0x22] @ ''foo'' @ [CHR 0x22]
               @ '' not found in component x-component'')),
        (fresh_page cart_page)\<lparr>router := \<lparr>initialized = True, registered = events @ expensiveEvents\<rparr>\<rparr>,
        nested [''x'', ''foo''])"
proof -
  let ?c = "nested [''x'', ''foo'']"
  have required: "requiredRefs ?c = Some ([''x''] @ ''foo'' # [])"
    by (simp add: nested_def)
  have present: "\<forall>r \<in> set [''x'']. in_refs r (build_refs cart_page (self ?c))"
    by code_simp
  have own: "''foo'' \<notin> set Object_prototype"
    by code_simp
  have absent: "\<forall>e \<in> set (elements cart_page (self ?c)). path_of (refName_of cart_page e) \<noteq> ''foo''"
    by code_simp
  have proto: "\<forall>e \<in> set (elements cart_page (self ?c)). path_of (refName_of cart_page e) \<noteq> ''__proto__''"
    by code_simp
  have tag: "toLowerCase (tagName_of cart_page (self ?c)) = ''x-component''"
    by code_simp
  have hydrated: "update_at DeclarativeShadowElement_connectedCallback (self ?c)
                    (document (fresh_page cart_page)) = cart_page"
    by code_simp
  have router: "registerEventListeners (router (fresh_page cart_page))
                  = \<lparr>initialized = True, registered = events @ expensiveEvents\<rparr>"
    by (simp add: registerEventListeners_def fresh_page_def)
  have same: "(fresh_page cart_page)\<lparr>document := cart_page\<rparr> = fresh_page cart_page"
    by (simp add: fresh_page_def)
  note inst = missing_required_ref_raises [OF required present own absent proto]
  have a: "updateRefs cart_page ?c =
     (Inl (MissingRefError (''Required ref '' @ [CHR 0x22] @ ''foo'' @ [CHR 0x22]
             @ '' not found in component x-component'')), ?c)"
    using inst tag by simp
  have b: "Component_connectedCallback (fresh_page cart_page) ?c =
       (Inl (MissingRefError (''Required ref '' @ [CHR 0x22] @ ''foo'' @ [CHR 0x22]
               @ '' not found in component x-component'')),
        (fresh_page cart_page)\<lparr>router := \<lparr>initialized = True, registered = events @ expensiveEvents\<rparr>\<rparr>,
        ?c)"
    using conjunct2 [OF inst, rule_format, OF hydrated] tag router same by simp
  show ?thesis using a b by blast
qed

text \<open>
  C1 as stated fails twice on the example page. With \<open>bar\<close> and \<open>foo\<close> both required
  and both missing, the error names \<open>bar\<close>, the first of them, and not \<open>foo\<close>. With
  \<open>toString\<close> required and no element marked so, the computation completes: the \<open>in\<close>
  operator finds the inherited property.
\<close>

theorem missing_required_ref_counterexample:
  "requiredRefs (nested [''bar'', ''foo'']) = Some [''bar'', ''foo'']
   \<and> filter (\<lambda>e. path_of (refName_of cart_page e) = ''foo'')
        (elements cart_page (self (nested [''bar'', ''foo'']))) = []
   \<and> fst (updateRefs cart_page (nested [''bar'', ''foo''])) =
       Inl (MissingRefError (''Required ref '' @ [CHR 0x22] @ ''bar'' @ [CHR 0x22]
              @ '' not found in component x-component''))
   \<and> fst (updateRefs cart_page (nested [''bar'', ''foo''])) \<noteq>
       Inl (MissingRefError (''Required ref '' @ [CHR 0x22] @ ''foo'' @ [CHR 0x22]
              @ '' not found in component x-component''))
   \<and> filter (\<lambda>e. path_of (refName_of cart_page e) = ''toString'')
        (elements cart_page (self (nested [''toString'']))) = []
   \<and> fst (updateRefs cart_page (nested [''toString''])) = Inr ()"
  by code_simp

section \<open>Claims about the mutation observer\<close>

lemma detached_not_descendant:
  assumes "parentNode n = None" and "\<not> instanceof d n ShadowRoot"
  shows "\<not> isDescendant d slf n"
proof -
  have "getAncestor d n = None"
    using assms by (simp add: getAncestor_def)
  then show ?thesis by (simp add: isDescendant_def)
qed

lemma removals_do_not_recompute:
  assumes "\<forall>m \<in> set mutations. mtype m = ''childList'' \<and> addedNodes m = []
             \<and> (\<forall>n \<in> set (removedNodes m). parentNode n = None \<and> \<not> instanceof d n ShadowRoot)"
  shows "mutationObserver_callback d c mutations = (Inr (), c)"
proof -
  have "\<not> ((mtype m = ''attributes'' \<and> isDescendant d (self c) (mtarget m))
           \<or> (mtype m = ''childList''
               \<and> list_ex (isDescendant d (self c)) (addedNodes m @ removedNodes m)))"
    if m: "m \<in> set mutations" for m
  proof -
    have t: "mtype m = ''childList''" and a: "addedNodes m = []"
      and r: "\<forall>n \<in> set (removedNodes m). \<not> isDescendant d (self c) n"
      using assms m detached_not_descendant by blast+
    have "mtype m \<noteq> ''attributes''" using t by simp
    moreover have "\<not> list_ex (isDescendant d (self c)) (addedNodes m @ removedNodes m)"
      using a r by (simp add: list_ex_iff)
    ultimately show ?thesis by blast
  qed
  then have "\<not> list_ex (\<lambda>m. (mtype m = ''attributes'' \<and> isDescendant d (self c) (mtarget m))
                      \<or> (mtype m = ''childList''
                          \<and> list_ex (isDescendant d (self c)) (addedNodes m @ removedNodes m)))
           mutations"
    unfolding list_ex_iff by blast
  then show ?thesis by (simp add: mutationObserver_callback_def)
qed

lemma additions_recompute:
  assumes "m \<in> set mutations" and "mtype m = ''childList''"
    and "n \<in> set (addedNodes m)" and "isDescendant d (self c) n"
  shows "mutationObserver_callback d c mutations = updateRefs d c"
proof -
  have "list_ex (isDescendant d (self c)) (addedNodes m @ removedNodes m)"
    using assms(3,4) by (auto simp: list_ex_iff)
  then have "list_ex (\<lambda>m. (mtype m = ''attributes'' \<and> isDescendant d (self c) (mtarget m))
                      \<or> (mtype m = ''childList''
                          \<and> list_ex (isDescendant d (self c)) (addedNodes m @ removedNodes m)))
           mutations"
    using assms(1,2) unfolding list_ex_iff [of _ mutations] by blast
  then show ?thesis by (simp add: mutationObserver_callback_def)
qed

lemma removal_not_observed:
  assumes "\<not> instanceof d n ShadowRoot"
  shows "mutationObserver_callback (fst (remove_node d n)) c (snd (remove_node d n)) = (Inr (), c)"
proof (cases "\<exists>t p. node_at d n = Some t \<and> parentNode n = Some p")
  case True
  then obtain t p where h: "node_at d n = Some t" "parentNode n = Some p" by blast
  have r: "remove_node d n =
          (d[fst n := delete_subtree (snd n) (d ! fst n)] @ [t],
           [\<lparr>mtype = ''childList'', mtarget = p, addedNodes = [],
             removedNodes = [(length d, [])]\<rparr>])"
    using h by (simp add: remove_node_def)
  have "node_at (fst (remove_node d n)) (length d, []) = Some t"
    using r by (simp add: node_at_def nth_append)
  then have "\<not> instanceof (fst (remove_node d n)) (length d, []) ShadowRoot"
    using assms h(1) by (simp add: instanceof_def)
  moreover have "parentNode (length d, []) = None" by simp
  ultimately have "\<forall>m \<in> set (snd (remove_node d n)). mtype m = ''childList'' \<and> addedNodes m = []
             \<and> (\<forall>x \<in> set (removedNodes m). parentNode x = None
                   \<and> \<not> instanceof (fst (remove_node d n)) x ShadowRoot)"
    using r by simp
  then show ?thesis by (rule removals_do_not_recompute)
next
  case False
  then have "snd (remove_node d n) = []"
    by (auto simp: remove_node_def split: option.splits)
  then show ?thesis by (simp add: mutationObserver_callback_def)
qed

text \<open>
  C2 (the code departs from the claim). On the example page the cart's scan has stored
  the button under \<open>foo\<close>. The button is removed and the observer delivers the record of
  the removal. At delivery the removed button has no parent, so it is not found to be a
  descendant of the cart, and the callback does not recompute: \<open>refs.foo\<close> still holds
  the detached button, where a recomputation on the same snapshot would leave the slot
  absent. It is so for the removal of any node (\<open>removal_not_observed\<close>), while a node
  that was added is still attached at delivery and the same test finds it
  (\<open>additions_recompute\<close>).
\<close>

theorem removal_leaves_stale_ref:
  "refs (snd (updateRefs cart_page (cart_connected\<lparr>refs := Map.empty\<rparr>))) ''foo''
     = Some (Single (0, [Child 0, Child 4]))
   \<and> remove_node cart_page (0, [Child 0, Child 4]) = (cart_page_removed, [removal])
   \<and> mutationObserver_callback cart_page_removed cart_connected [removal] = (Inr (), cart_connected)
   \<and> refs (snd (mutationObserver_callback cart_page_removed cart_connected [removal])) ''foo''
       = Some (Single (1, []))
   \<and> refs (snd (updateRefs cart_page_removed cart_connected)) ''foo'' = None"
proof -
  have a: "refs (snd (updateRefs cart_page (cart_connected\<lparr>refs := Map.empty\<rparr>))) ''foo''
     = Some (Single (0, [Child 0, Child 4]))"
    by code_simp
  have r: "remove_node cart_page (0, [Child 0, Child 4]) = (cart_page_removed, [removal])"
    by code_simp
  have "\<not> instanceof cart_page (0, [Child 0, Child 4]) ShadowRoot"
    by code_simp
  from removal_not_observed [OF this, of cart_connected]
  have b: "mutationObserver_callback cart_page_removed cart_connected [removal] = (Inr (), cart_connected)"
    using r by simp
  have c: "refs cart_connected ''foo'' = Some (Single (1, []))"
    by (simp add: cart_connected_def)
  have d: "refs (snd (updateRefs cart_page_removed cart_connected)) ''foo'' = None"
    by code_simp
  show ?thesis using a r b c d by simp
qed

section \<open>Claims about the shadow hydrator\<close>

text \<open>
  C9 (amended). On connection of a host without a shadow root whose first child matching
  \<open>template[shadowrootmode="open"]\<close> is a template element, an open shadow root is
  created that holds a deep copy of the template's content; the children of the host,
  the template and its content among them, stay as they were. A host that has a shadow
  root is left unchanged, and so is a host without such a template; there is no error.
  Connecting twice is the same as connecting once.
\<close>

theorem shadow_hydration:
  "(shadowRoot h = None \<and> find template_selector (childNodes h) = Some t
      \<and> HTMLTemplateElement \<in> set (superclasses (cls t))
    \<longrightarrow> DeclarativeShadowElement_connectedCallback h
          = Node (cls h) (tagName h) (attributes h) (childNodes h)
              (Some (Node ShadowRoot [] [] (content t) None [])) (content h))
   \<and> (shadowRoot h \<noteq> None \<longrightarrow> DeclarativeShadowElement_connectedCallback h = h)
   \<and> (find template_selector (childNodes h) = None \<longrightarrow>
         DeclarativeShadowElement_connectedCallback h = h)
   \<and> DeclarativeShadowElement_connectedCallback (DeclarativeShadowElement_connectedCallback h)
       = DeclarativeShadowElement_connectedCallback h"
proof -
  have a: "shadowRoot h = None \<and> find template_selector (childNodes h) = Some t
      \<and> HTMLTemplateElement \<in> set (superclasses (cls t))
    \<longrightarrow> DeclarativeShadowElement_connectedCallback h
          = Node (cls h) (tagName h) (attributes h) (childNodes h)
              (Some (Node ShadowRoot [] [] (content t) None [])) (content h)"
    by (simp add: DeclarativeShadowElement_connectedCallback_def attachShadow_append_def
          cloneNode_deep_def)
  have b: "shadowRoot h \<noteq> None \<longrightarrow> DeclarativeShadowElement_connectedCallback h = h"
    by (auto simp: DeclarativeShadowElement_connectedCallback_def)
  have c: "find template_selector (childNodes h) = None \<longrightarrow>
         DeclarativeShadowElement_connectedCallback h = h"
    by (simp add: DeclarativeShadowElement_connectedCallback_def split: option.splits)
  have d: "DeclarativeShadowElement_connectedCallback (DeclarativeShadowElement_connectedCallback h)
       = DeclarativeShadowElement_connectedCallback h"
  proof (cases "DeclarativeShadowElement_connectedCallback h = h")
    case True
    then show ?thesis by simp
  next
    case False
    then have "shadowRoot (DeclarativeShadowElement_connectedCallback h) \<noteq> None"
      by (auto simp: DeclarativeShadowElement_connectedCallback_def attachShadow_append_def
            split: option.splits if_splits)
    then show ?thesis
      by (auto simp: DeclarativeShadowElement_connectedCallback_def
            [of "DeclarativeShadowElement_connectedCallback h"])
  qed
  show ?thesis using a b c d by blast
qed

text \<open>The example host is hydrated once; a host without a template is left alone.\<close>

theorem shadow_hydration_witness:
  "DeclarativeShadowElement_connectedCallback card_host
     = Node DeclarativeShadowElement ''MY-CARD'' [] (childNodes card_host)
         (Some (Node ShadowRoot [] [] [el HTMLElement ''SLOT'' [] []] None [])) []
   \<and> DeclarativeShadowElement_connectedCallback (DeclarativeShadowElement_connectedCallback card_host)
       = DeclarativeShadowElement_connectedCallback card_host
   \<and> DeclarativeShadowElement_connectedCallback (el DeclarativeShadowElement ''MY-CARD'' [] [])
       = el DeclarativeShadowElement ''MY-CARD'' [] []"
proof -
  let ?t = "Node HTMLTemplateElement ''TEMPLATE'' [(''shadowrootmode'', ''open'')] [] None
              [el HTMLElement ''SLOT'' [] []]"
  have h1: "shadowRoot card_host = None \<and> find template_selector (childNodes card_host) = Some ?t
      \<and> HTMLTemplateElement \<in> set (superclasses (cls ?t))"
    by code_simp
  have h2: "find template_selector (childNodes (el DeclarativeShadowElement ''MY-CARD'' [] [])) = None"
    by code_simp
  have f: "cls card_host = DeclarativeShadowElement" "tagName card_host = ''MY-CARD''" "attributes card_host = []"
     "content card_host = []" "content ?t = [el HTMLElement ''SLOT'' [] []]"
    by (simp_all add: card_host_def)
  note inst = shadow_hydration [of card_host ?t]
  note inst2 = shadow_hydration [of "el DeclarativeShadowElement ''MY-CARD'' [] []" ?t]
  have a: "DeclarativeShadowElement_connectedCallback card_host
     = Node DeclarativeShadowElement ''MY-CARD'' [] (childNodes card_host)
         (Some (Node ShadowRoot [] [] [el HTMLElement ''SLOT'' [] []] None [])) []"
    using inst h1 f by simp
  have b: "DeclarativeShadowElement_connectedCallback (DeclarativeShadowElement_connectedCallback card_host)
       = DeclarativeShadowElement_connectedCallback card_host"
    using inst by blast
  have c: "DeclarativeShadowElement_connectedCallback (el DeclarativeShadowElement ''MY-CARD'' [] [])
       = el DeclarativeShadowElement ''MY-CARD'' [] []"
    using inst2 h2 by blast
  show ?thesis using a b c by blast
qed

text \<open>
  C9 as stated fails on the example host: after connection the template is still the
  first child and still holds its content, which was copied, not moved.
\<close>

theorem shadow_hydration_counterexample:
  "shadowRoot card_host = None
   \<and> find template_selector (childNodes card_host)
       = Some (Node HTMLTemplateElement ''TEMPLATE'' [(''shadowrootmode'', ''open'')] [] None
                 [el HTMLElement ''SLOT'' [] []])
   \<and> map content (childNodes (DeclarativeShadowElement_connectedCallback card_host))
       = [[el HTMLElement ''SLOT'' [] []], []]
   \<and> content (childNodes (DeclarativeShadowElement_connectedCallback card_host) ! 0) \<noteq> []"
  by code_simp

section \<open>Claims about the scheduler\<close>

lemma fold_set_add_distinct:
  "distinct acc \<Longrightarrow> distinct (fold set_add ts acc) \<and> set (fold set_add ts acc) = set acc \<union> set ts"
  by (induction ts arbitrary: acc) (auto simp: set_add_def)

lemma schedule_queue: "queue (schedule t s) = set_add t (queue s)"
  by (simp add: schedule_def Let_def)

lemma fold_schedule_queue: "queue (fold schedule ts s) = fold set_add ts (queue s)"
  by (induction ts arbitrary: s) (simp_all add: schedule_queue)

lemma schedule_scheduled: "scheduled (schedule t s)"
  by (simp add: schedule_def Let_def)

lemma schedule_requests:
  "awaiting (schedule t s) + frame_requests (schedule t s)
     = awaiting s + frame_requests s + (if scheduled s then 0 else 1)"
  by (simp add: schedule_def Let_def)

lemma schedule_again:
  "scheduled s \<Longrightarrow> schedule t s = s\<lparr>queue := set_add t (queue s)\<rparr>"
  by (simp add: schedule_def Let_def)

lemma fold_schedule_requests:
  "scheduled s \<Longrightarrow> awaiting (fold schedule ts s) = awaiting s
     \<and> frame_requests (fold schedule ts s) = frame_requests s
     \<and> scheduled (fold schedule ts s)
     \<and> viewTransition_current (fold schedule ts s) = viewTransition_current s
     \<and> timers (fold schedule ts s) = timers s \<and> executed (fold schedule ts s) = executed s"
  by (induction ts arbitrary: s) (simp_all add: schedule_again)

lemma flush_clears: "queue (flush s) = [] \<and> \<not> scheduled (flush s)"
  by (simp add: flush_def)

lemma fold_set_add_fresh: "distinct (acc @ ts) \<Longrightarrow> fold set_add ts acc = acc @ ts"
proof (induction ts arbitrary: acc)
  case Nil
  show ?case by simp
next
  case (Cons t ts)
  have "t \<notin> set acc" "distinct ((acc @ [t]) @ ts)" using Cons.prems by auto
  then show ?case using Cons.IH [of "acc @ [t]"] by (simp add: set_add_def)
qed

lemma schedule_first:
  assumes "idle s"
  shows "schedule t s =
     (if viewTransition_current s
      then s\<lparr>queue := [t], scheduled := True, awaiting := 1\<rparr>
      else s\<lparr>queue := [t], scheduled := True, frame_requests := 1\<rparr>)"
  using assms by (simp add: idle_def schedule_def set_add_def Let_def)

lemma cycle_runs_queue:
  assumes "idle s" and "ts \<noteq> []"
  shows "executed (run_timers (animation_frame (transition_finished (fold schedule ts s))))
           = executed s @ queue (fold schedule ts s)
         \<and> (\<not> viewTransition_current s \<longrightarrow>
              executed (run_timers (animation_frame (fold schedule ts s)))
                = executed s @ queue (fold schedule ts s))
         \<and> (viewTransition_current s \<longrightarrow>
              executed (run_timers (animation_frame (fold schedule ts s))) = executed s)"
proof -
  obtain u us where ts: "ts = u # us" using assms(2) by (cases ts) auto
  let ?s' = "fold schedule ts s"
  have i: "queue s = []" "\<not> scheduled s" "awaiting s = 0" "frame_requests s = 0" "timers s = []"
    using assms(1) by (simp_all add: idle_def)
  have rest: "awaiting ?s' = awaiting (schedule u s)"
    "frame_requests ?s' = frame_requests (schedule u s)"
    "viewTransition_current ?s' = viewTransition_current (schedule u s)"
    "timers ?s' = timers (schedule u s)" "executed ?s' = executed (schedule u s)"
    using fold_schedule_requests [OF schedule_scheduled, of us u s] ts by simp_all
  show ?thesis
  proof (cases "viewTransition_current s")
    case True
    then have v: "awaiting ?s' = 1" "frame_requests ?s' = 0" "timers ?s' = []" "executed ?s' = executed s"
      using rest i by (simp_all add: schedule_first [OF assms(1)])
    show ?thesis using True v
      by (simp add: transition_finished_def animation_frame_def flush_def run_timers_def)
  next
    case False
    then have v: "awaiting ?s' = 0" "frame_requests ?s' = 1" "timers ?s' = []" "executed ?s' = executed s"
      using rest i by (simp_all add: schedule_first [OF assms(1)])
    show ?thesis using False v
      by (simp add: transition_finished_def animation_frame_def flush_def run_timers_def)
  qed
qed

text \<open>
  C6. From a scheduler with nothing pending: the same task scheduled twice runs once;
  two distinct tasks run in the order they were submitted; with a view transition in
  flight a frame that comes before the transition settles runs nothing, and the frame
  after it settles runs both in order. However many times tasks are scheduled before
  the flush, the queue holds each once (in the order submitted, when they are distinct),
  exactly one flush has been requested, and the frame after the transition has settled
  runs the queue in order. \<open>flush\<close> leaves the queue empty and the pending flag off.
\<close>

theorem scheduler_coalesces:
  assumes "idle s"
  shows "(\<not> viewTransition_current s \<longrightarrow>
            executed (run_timers (animation_frame (schedule t (schedule t s)))) = executed s @ [t])
       \<and> (t1 \<noteq> t2 \<and> \<not> viewTransition_current s \<longrightarrow>
            executed (run_timers (animation_frame (schedule t2 (schedule t1 s)))) = executed s @ [t1, t2])
       \<and> (t1 \<noteq> t2 \<and> viewTransition_current s \<longrightarrow>
            executed (run_timers (animation_frame (schedule t2 (schedule t1 s)))) = executed s
            \<and> executed (run_timers (animation_frame (transition_finished (schedule t2 (schedule t1 s)))))
                = executed s @ [t1, t2])
       \<and> (ts \<noteq> [] \<longrightarrow>
            distinct (queue (fold schedule ts s)) \<and> set (queue (fold schedule ts s)) = set ts
            \<and> (distinct ts \<longrightarrow> queue (fold schedule ts s) = ts)
            \<and> awaiting (fold schedule ts s) + frame_requests (fold schedule ts s) = 1
            \<and> executed (run_timers (animation_frame (transition_finished (fold schedule ts s))))
                = executed s @ queue (fold schedule ts s))
       \<and> queue (flush s') = [] \<and> \<not> scheduled (flush s')"
proof -
  have i: "queue s = []" "\<not> scheduled s" "awaiting s = 0" "frame_requests s = 0" "timers s = []"
    using assms by (simp_all add: idle_def)
  have a: "\<not> viewTransition_current s \<longrightarrow>
            executed (run_timers (animation_frame (schedule t (schedule t s)))) = executed s @ [t]"
    using i by (simp add: schedule_def set_add_def animation_frame_def flush_def run_timers_def Let_def)
  have b: "t1 \<noteq> t2 \<and> \<not> viewTransition_current s \<longrightarrow>
            executed (run_timers (animation_frame (schedule t2 (schedule t1 s)))) = executed s @ [t1, t2]"
    using i by (simp add: schedule_def set_add_def animation_frame_def flush_def run_timers_def Let_def)
  have c: "t1 \<noteq> t2 \<and> viewTransition_current s \<longrightarrow>
            executed (run_timers (animation_frame (schedule t2 (schedule t1 s)))) = executed s
            \<and> executed (run_timers (animation_frame (transition_finished (schedule t2 (schedule t1 s)))))
                = executed s @ [t1, t2]"
    using i by (simp add: schedule_def set_add_def animation_frame_def flush_def run_timers_def
                  transition_finished_def Let_def)
  have d: "ts \<noteq> [] \<longrightarrow>
            distinct (queue (fold schedule ts s)) \<and> set (queue (fold schedule ts s)) = set ts
            \<and> (distinct ts \<longrightarrow> queue (fold schedule ts s) = ts)
            \<and> awaiting (fold schedule ts s) + frame_requests (fold schedule ts s) = 1
            \<and> executed (run_timers (animation_frame (transition_finished (fold schedule ts s))))
                = executed s @ queue (fold schedule ts s)"
  proof
    assume ne: "ts \<noteq> []"
    then obtain u us where ts: "ts = u # us" by (cases ts) auto
    have q: "distinct (queue (fold schedule ts s)) \<and> set (queue (fold schedule ts s)) = set ts"
      using fold_set_add_distinct [of "[]" ts] i(1) by (simp add: fold_schedule_queue)
    have o: "distinct ts \<longrightarrow> queue (fold schedule ts s) = ts"
      using fold_set_add_fresh [of "[]" ts] i(1) by (simp add: fold_schedule_queue)
    have "awaiting (schedule u s) + frame_requests (schedule u s) = 1"
      using i by (simp add: schedule_requests)
    then have r: "awaiting (fold schedule ts s) + frame_requests (fold schedule ts s) = 1"
      using fold_schedule_requests [OF schedule_scheduled, of us u s] ts by simp
    show "distinct (queue (fold schedule ts s)) \<and> set (queue (fold schedule ts s)) = set ts
            \<and> (distinct ts \<longrightarrow> queue (fold schedule ts s) = ts)
            \<and> awaiting (fold schedule ts s) + frame_requests (fold schedule ts s) = 1
            \<and> executed (run_timers (animation_frame (transition_finished (fold schedule ts s))))
                = executed s @ queue (fold schedule ts s)"
      using q o r cycle_runs_queue [OF assms ne] by blast
  qed
  show ?thesis using a b c d flush_clears by blast
qed

text \<open>Tasks 7 and 8, with and without a transition in flight.\<close>

theorem scheduler_coalesces_witness:
  "idle (at_rest True)
   \<and> executed (run_timers (animation_frame (schedule 7 (schedule 7 (at_rest False))))) = [7]
   \<and> executed (run_timers (animation_frame (schedule 8 (schedule 7 (at_rest False))))) = [7, 8]
   \<and> executed (run_timers (animation_frame (schedule 8 (schedule 7 (at_rest True))))) = []
   \<and> executed (run_timers (animation_frame (transition_finished (schedule 8 (schedule 7 (at_rest True))))))
       = [7, 8]
   \<and> queue (fold schedule [7, 8, 7] (at_rest True)) = [7, 8]
   \<and> awaiting (fold schedule [7, 8, 7] (at_rest True))
       + frame_requests (fold schedule [7, 8, 7] (at_rest True)) = 1"
proof -
  have i: "idle (at_rest True)" "idle (at_rest False)"
    by (simp_all add: idle_def at_rest_def)
  have v: "viewTransition_current (at_rest True)" "\<not> viewTransition_current (at_rest False)"
    "executed (at_rest True) = []" "executed (at_rest False) = []" "(7 :: nat) \<noteq> 8" "[7, 8, 7 :: nat] \<noteq> []"
    by (simp_all add: at_rest_def)
  note on = scheduler_coalesces [OF i(1), of 7 7 8 "[7, 8, 7]"]
  note off = scheduler_coalesces [OF i(2), of 7 7 8 "[7, 8, 7]"]
  have a: "executed (run_timers (animation_frame (schedule 7 (schedule 7 (at_rest False))))) = [7]"
    using off v by simp
  have b: "executed (run_timers (animation_frame (schedule 8 (schedule 7 (at_rest False))))) = [7, 8]"
    using off v by simp
  have c: "executed (run_timers (animation_frame (schedule 8 (schedule 7 (at_rest True))))) = []
     \<and> executed (run_timers (animation_frame (transition_finished (schedule 8 (schedule 7 (at_rest True))))))
       = [7, 8]"
    using on v by simp
  have q: "queue (fold schedule [7, 8, 7] (at_rest True)) = [7, 8]"
    by code_simp
  have r: "awaiting (fold schedule [7, 8, 7] (at_rest True))
       + frame_requests (fold schedule [7, 8, 7] (at_rest True)) = 1"
    using on v by blast
  show ?thesis using i(1) a b c q r by blast
qed

section \<open>Claims about the event delegation router\<close>









lemma listener_resolved:
  assumes "getElement d ev = Some element"
  shows "listener pf d property eventName ev =
     (case resolve_instance pf d element
             (selector_of (binding_value d element (''on:'' @ eventName))) of
        Inl exn \<Rightarrow> \<lparr>calls = [], console_error = [], uncaught = Some exn\<rparr>
      | Inr inst \<Rightarrow>
          (case (inst, method_of (binding_value d element (''on:'' @ eventName))) of
             (Some i, Some m0) \<Rightarrow>
               if \<not> instanceof d i Component \<or> m0 = [] then no_op
               else (case property i (strip_query m0) of
                       None \<Rightarrow> no_op
                     | Some callback \<Rightarrow>
                         \<lparr>calls = [\<lparr>receiver = i, name = strip_query m0,
                                    payload = map_option (parseData pf)
                                      (match_data (binding_value d element (''on:'' @ eventName))),
                                    passed = proxy ev element\<rparr>],
                          console_error =
                            (case callback
                                    (map_option (parseData pf)
                                       (match_data (binding_value d element (''on:'' @ eventName))))
                                    (proxy ev element) of
                               None \<Rightarrow> [] | Some err \<Rightarrow> [err]),
                          uncaught = None\<rparr>)
           | _ \<Rightarrow> no_op))"
  using assms
  by (simp add: listener_def Let_def split: sum.splits option.splits prod.splits)

lemma listener_cases:
  "listener pf d property eventName ev = no_op
   \<or> (\<exists>exn. listener pf d property eventName ev
               = \<lparr>calls = [], console_error = [], uncaught = Some exn\<rparr>)
   \<or> (\<exists>call f. property (receiver call) (name call) = Some f
          \<and> listener pf d property eventName ev
               = \<lparr>calls = [call],
                  console_error = (case f (payload call) (passed call) of
                                     None \<Rightarrow> [] | Some err \<Rightarrow> [err]),
                  uncaught = None\<rparr>)"
proof (cases "getElement d ev")
  case None
  then show ?thesis by (simp add: listener_def)
next
  case (Some element)
  let ?v = "binding_value d element (''on:'' @ eventName)"
  note unfolded = listener_resolved [OF Some, of pf property eventName]
  show ?thesis
  proof (cases "resolve_instance pf d element (selector_of ?v)")
    case (Inl exn)
    then show ?thesis using unfolded by simp
  next
    case (Inr inst)
    show ?thesis
    proof (cases "\<exists>i m0 f. inst = Some i \<and> method_of ?v = Some m0 \<and> instanceof d i Component
                     \<and> m0 \<noteq> [] \<and> property i (strip_query m0) = Some f")
      case True
      then obtain i m0 f where h: "inst = Some i" "method_of ?v = Some m0" "instanceof d i Component"
        "m0 \<noteq> []" "property i (strip_query m0) = Some f"
        by blast
      let ?call = "\<lparr>receiver = i, name = strip_query m0,
                    payload = map_option (parseData pf) (match_data ?v), passed = proxy ev element\<rparr>"
      have "listener pf d property eventName ev
               = \<lparr>calls = [?call],
                  console_error = (case f (payload ?call) (passed ?call) of
                                     None \<Rightarrow> [] | Some err \<Rightarrow> [err]),
                  uncaught = None\<rparr>"
        using unfolded Inr h by simp
      moreover have "property (receiver ?call) (name ?call) = Some f"
        using h(5) by simp
      ultimately show ?thesis by blast
    next
      case False
      then have "listener pf d property eventName ev = no_op"
        using unfolded Inr
        by (cases inst; cases "method_of ?v") (auto split: option.splits)
      then show ?thesis by blast
    qed
  qed
qed







text \<open>
  C7. Whenever the listener invokes a method, it invokes exactly one, nothing leaves the
  listener, and what the method throws, if it throws, is what is written to the
  console. The listener keeps no state, so the delivery of one event does not change
  the delivery of another.
\<close>

theorem handler_exception_is_caught:
  "calls (listener pf d property eventName ev) = []
   \<or> (\<exists>call f. calls (listener pf d property eventName ev) = [call]
          \<and> property (receiver call) (name call) = Some f
          \<and> console_error (listener pf d property eventName ev)
               = (case f (payload call) (passed call) of None \<Rightarrow> [] | Some err \<Rightarrow> [err])
          \<and> uncaught (listener pf d property eventName ev) = None)"
proof -
  consider "listener pf d property eventName ev = no_op"
    | exn where "listener pf d property eventName ev
               = \<lparr>calls = [], console_error = [], uncaught = Some exn\<rparr>"
    | call f where "property (receiver call) (name call) = Some f"
        "listener pf d property eventName ev
               = \<lparr>calls = [call],
                  console_error = (case f (payload call) (passed call) of
                                     None \<Rightarrow> [] | Some err \<Rightarrow> [err]),
                  uncaught = None\<rparr>"
    using listener_cases [of pf d property eventName ev] by blast
  then show ?thesis
  proof cases
    case 1
    then show ?thesis by (simp add: no_op_def)
  next
    case 2
    then show ?thesis by simp
  next
    case 3
    have "calls (listener pf d property eventName ev) = [call]
          \<and> property (receiver call) (name call) = Some f
          \<and> console_error (listener pf d property eventName ev)
               = (case f (payload call) (passed call) of None \<Rightarrow> [] | Some err \<Rightarrow> [err])
          \<and> uncaught (listener pf d property eventName ev) = None"
      using 3 by simp
    then show ?thesis by blast
  qed
qed

text \<open>The third button of the panel binds a method that throws.\<close>

theorem handler_exception_is_caught_witness:
  "calls (listener browser panel_page handlers ''click'' (click (0, [Child 0, Child 2])))
     = [\<lparr>receiver = (0, [Child 0]), name = ''explode'', payload = None,
         passed = click (0, [Child 0, Child 2])\<rparr>]
   \<and> console_error (listener browser panel_page handlers ''click'' (click (0, [Child 0, Child 2])))
       = [Thrown ''boom'']
   \<and> uncaught (listener browser panel_page handlers ''click'' (click (0, [Child 0, Child 2])))
       = None"
proof -
  let ?r = "listener browser panel_page handlers ''click'' (click (0, [Child 0, Child 2]))"
  let ?call = "\<lparr>receiver = (0, [Child 0]), name = ''explode'', payload = None,
                passed = click (0, [Child 0, Child 2])\<rparr>"
  have resolved: "getElement panel_page (click (0, [Child 0, Child 2])) = Some (0, [Child 0, Child 2])"
    "resolve_instance browser panel_page (0, [Child 0, Child 2])
       (selector_of (binding_value panel_page (0, [Child 0, Child 2]) (''on:'' @ ''click'')))
     = Inr (Some (0, [Child 0]))"
    "method_of (binding_value panel_page (0, [Child 0, Child 2]) (''on:'' @ ''click''))
     = Some ''explode''"
    "match_data (binding_value panel_page (0, [Child 0, Child 2]) (''on:'' @ ''click'')) = None"
    "strip_query ''explode'' = ''explode''"
    "instanceof panel_page (0, [Child 0]) Component"
    by code_simp+
  have same: "proxy (click (0, [Child 0, Child 2])) (0, [Child 0, Child 2])
                = click (0, [Child 0, Child 2])"
    by (simp add: proxy_def click_def)
  have invoked: "calls ?r = [?call]"
    using listener_resolved [OF resolved(1), of browser handlers "''click''"] resolved(2-6) same
    by (simp add: handlers_def)
  have throws: "handlers (0, [Child 0]) ''explode'' = Some (\<lambda>a e. Some (Thrown ''boom''))"
    by (simp add: handlers_def)
  from handler_exception_is_caught [of browser panel_page handlers "''click''" "click (0, [Child 0, Child 2])"]
  obtain call f where h: "calls ?r = [call]" "handlers (receiver call) (name call) = Some f"
     "console_error ?r = (case f (payload call) (passed call) of None \<Rightarrow> [] | Some err \<Rightarrow> [err])"
     "uncaught ?r = None"
    using invoked by auto
  have "call = ?call" using h(1) invoked by simp
  then have "f = (\<lambda>a e. Some (Thrown ''boom''))" using h(2) throws by simp
  then have "console_error ?r = [Thrown ''boom'']" using h(3) by simp
  then show ?thesis using invoked h(4) by blast
qed

text \<open>
  C8 (amended). When the lookup of the instance does not raise (it cannot when the
  binding has no selector segment), and the binding has no method segment or an empty
  one, or no instance is found, or the instance is not a component, or it has no
  callable under the method name, the listener does nothing: no call, nothing on the
  console, nothing raised. So it does when no element with a binding is found for the
  event.
\<close>

theorem resolution_miss_is_silent:
  assumes "getElement d ev = Some element"
    and "resolve_instance pf d element
           (selector_of (binding_value d element (''on:'' @ eventName))) = Inr inst"
    and "method_of (binding_value d element (''on:'' @ eventName)) = None
         \<or> method_of (binding_value d element (''on:'' @ eventName)) = Some []
         \<or> inst = None
         \<or> (\<exists>i. inst = Some i \<and> \<not> instanceof d i Component)
         \<or> (\<exists>i m0. inst = Some i
               \<and> method_of (binding_value d element (''on:'' @ eventName)) = Some m0
               \<and> property i (strip_query m0) = None)"
  shows "listener pf d property eventName ev = no_op
       \<and> (\<forall>el. resolve_instance pf d el [] = Inr (getClosestComponent d (Some el)))
       \<and> (\<forall>ev'. getElement d ev' = None \<longrightarrow> listener pf d property eventName ev' = no_op)"
proof -
  note unfolded = listener_resolved [OF assms(1), of pf property eventName]
  have "listener pf d property eventName ev = no_op"
    using assms(3)
  proof (elim disjE exE conjE)
    assume "method_of (binding_value d element (''on:'' @ eventName)) = None"
    then show ?thesis using unfolded assms(2) by (cases inst) simp_all
  next
    assume "method_of (binding_value d element (''on:'' @ eventName)) = Some []"
    then show ?thesis using unfolded assms(2) by (cases inst) simp_all
  next
    assume "inst = None"
    then show ?thesis using unfolded assms(2) by simp
  next
    fix i assume "inst = Some i" "\<not> instanceof d i Component"
    then show ?thesis using unfolded assms(2)
      by (cases "method_of (binding_value d element (''on:'' @ eventName))") simp_all
  next
    fix i m0 assume "inst = Some i"
      "method_of (binding_value d element (''on:'' @ eventName)) = Some m0"
      "property i (strip_query m0) = None"
    then show ?thesis using unfolded assms(2) by simp
  qed
  moreover have "\<forall>el. resolve_instance pf d el [] = Inr (getClosestComponent d (Some el))"
    by (simp add: resolve_instance_def)
  moreover have "\<forall>ev'. getElement d ev' = None \<longrightarrow> listener pf d property eventName ev' = no_op"
    by (simp add: listener_def)
  ultimately show ?thesis by blast
qed

text \<open>
  The fourth button of the panel names a method the component does not have; the second
  has a selector and no method.
\<close>

theorem resolution_miss_is_silent_witness:
  "listener browser panel_page handlers ''click'' (click (0, [Child 0, Child 3])) = no_op
   \<and> listener browser panel_page handlers ''click'' (click (0, [Child 0, Child 1])) = no_op"
proof -
  let ?missing = "(0, [Child 0, Child 3])" and ?bare = "(0, [Child 0, Child 1])"
  have e1: "getElement panel_page (click ?missing) = Some ?missing"
    by code_simp
  have r1: "resolve_instance browser panel_page ?missing
              (selector_of (binding_value panel_page ?missing (''on:'' @ ''click'')))
            = Inr (Some (0, [Child 0]))"
    by code_simp
  have m1: "method_of (binding_value panel_page ?missing (''on:'' @ ''click'')) = Some ''missing''"
    "handlers (0, [Child 0]) (strip_query ''missing'') = None"
    by code_simp+
  have e2: "getElement panel_page (click ?bare) = Some ?bare"
    by code_simp
  have r2: "resolve_instance browser panel_page ?bare
              (selector_of (binding_value panel_page ?bare (''on:'' @ ''click'')))
            = Inr (Some (0, [Child 0]))"
    by code_simp
  have m2: "method_of (binding_value panel_page ?bare (''on:'' @ ''click'')) = None"
    by code_simp
  have a: "listener browser panel_page handlers ''click'' (click ?missing) = no_op"
    using resolution_miss_is_silent [where property = handlers, OF e1 r1] m1 by blast
  have b: "listener browser panel_page handlers ''click'' (click ?bare) = no_op"
    using resolution_miss_is_silent [where property = handlers, OF e2 r2] m2 by blast
  show ?thesis using a b by blast
qed

text \<open>
  C8 as stated fails on the first button of the panel: its binding has no method
  segment, its selector segment is not a selector, and the lookup raises before the
  method is looked at.
\<close>

theorem resolution_miss_counterexample:
  "binding_value panel_page (0, [Child 0, Child 0]) ''on:click'' = ''[''
   \<and> method_of ''['' = None
   \<and> css browser ''['' = None
   \<and> uncaught (listener browser panel_page handlers ''click'' (click (0, [Child 0, Child 0])))
       = Some (SyntaxError ''['')
   \<and> uncaught (listener browser panel_page handlers ''click'' (click (0, [Child 0, Child 0])))
       \<noteq> uncaught no_op"
  by code_simp

end
